theory Spec2Isabelle
  imports Main "HOL-Library.Word"
begin

unbundle bit_operations_syntax

section \<open>Python values and exceptions\<close>

text \<open>
  The device manager handles JSON data as plain Python values: \<^verbatim>\<open>None\<close>, booleans,
  integers, strings, lists and dictionaries. A dictionary is kept as the list of its
  items in insertion order. JSON floats do not occur in the fields the scanner reads
  and are left out.
\<close>

datatype pyval =
    PNone
  | PBool bool
  | PInt int
  | PStr string
  | PList "pyval list"
  | PDict "(pyval \<times> pyval) list"

text \<open>The exceptions the code raises or catches, each with the text of \<^verbatim>\<open>str(e)\<close>.\<close>

datatype pyexc =
    TimeoutError
  | ClientError string
  | JSONDecodeError string
  | KeyError string
  | TypeError string
  | AttributeError string
  | ValueError string
  | OSError string
  | OtherException string

fun str_exc :: "pyexc \<Rightarrow> string" where
  "str_exc TimeoutError = []"
| "str_exc (ClientError s) = s"
| "str_exc (JSONDecodeError s) = s"
| "str_exc (KeyError s) = s"
| "str_exc (TypeError s) = s"
| "str_exc (AttributeError s) = s"
| "str_exc (ValueError s) = s"
| "str_exc (OSError s) = s"
| "str_exc (OtherException s) = s"

section \<open>Dictionaries with typed keys\<close>

text \<open>
  \<^verbatim>\<open>d[k] = v\<close>: an existing key keeps its position and gets the new value, a new key is
  appended. \<^verbatim>\<open>d.update(other)\<close> assigns the items of \<^verbatim>\<open>other\<close> one after the other.
  Lookup is \<^const>\<open>map_of\<close>, membership \<^verbatim>\<open>k in d\<close> is \<open>map_of d k \<noteq> None\<close>.
\<close>

fun dict_set :: "('k \<times> 'v) list \<Rightarrow> 'k \<Rightarrow> 'v \<Rightarrow> ('k \<times> 'v) list" where
  "dict_set [] k v = [(k, v)]"
| "dict_set ((k', v') # d) k v =
     (if k' = k then (k', v) # d else (k', v') # dict_set d k v)"

definition dict_update :: "('k \<times> 'v) list \<Rightarrow> ('k \<times> 'v) list \<Rightarrow> ('k \<times> 'v) list" where
  "dict_update d other = fold (\<lambda>(k, v) acc. dict_set acc k v) other d"

section \<open>Registry merge (device\_scanner.py, merge\_device\_maps)\<close>

text \<open>
  A device record is a dictionary from field names to values; the device map is a
  dictionary from MAC addresses to device records, as the annotation
  \<^verbatim>\<open>Dict[str, Dict[str, Any]]\<close> says. The records of one map are distinct objects
  (they come from \<^verbatim>\<open>json.load\<close> and from the scan), so the in-place mutation of a
  record is the replacement of the value stored under its key.
\<close>

type_synonym device = "(string \<times> pyval) list"
type_synonym device_map = "(string \<times> device) list"

text \<open>\<^verbatim>\<open>for mac in merged: merged[mac]['online'] = False\<close>\<close>

definition mark_offline :: "device_map \<Rightarrow> device_map" where
  "mark_offline merged =
     map (\<lambda>(mac, dev). (mac, dict_set dev ''online'' (PBool False))) merged"

text \<open>The body of the loop over \<^verbatim>\<open>new.items()\<close> in ADD mode.\<close>

fun add_step :: "string \<times> device \<Rightarrow> device_map \<Rightarrow> device_map" where
  "add_step (mac, device) merged =
     (case map_of merged mac of
        Some old \<Rightarrow> dict_set merged mac (dict_update old device)
      | None \<Rightarrow> dict_set merged mac device)"

text \<open>The body of the loop over \<^verbatim>\<open>new.items()\<close> in UPDATE mode.\<close>

fun update_step :: "string \<times> device \<Rightarrow> device_map \<Rightarrow> device_map" where
  "update_step (mac, device) merged =
     (case map_of merged mac of
        Some old \<Rightarrow> dict_set merged mac (dict_update old device)
      | None \<Rightarrow> merged)"

definition merge_device_maps ::
  "string \<Rightarrow> device_map \<Rightarrow> device_map \<Rightarrow> pyexc + device_map" where
  "merge_device_maps mode existing new =
     (if mode = ''create'' then Inr new
      else if mode = ''add'' then Inr (fold add_step new (mark_offline existing))
      else if mode = ''update'' then Inr (fold update_step new (mark_offline existing))
      else Inl (ValueError (''Invalid mode: '' @ mode)))"

section \<open>Probing one address (device\_scanner.py, scan\_device)\<close>

text \<open>
  What the network gives back is the environment of the model: \<^verbatim>\<open>session.get\<close> or
  \<^verbatim>\<open>session.request\<close> either raises or yields a response with a status code, and
  \<^verbatim>\<open>await response.json()\<close> on that response either raises or yields the parsed body.
\<close>

record http_response =
  status :: int
  json_body :: "pyexc + pyval"

type_synonym http_result = "pyexc + http_response"

text \<open>\<^verbatim>\<open>data.get(key, default)\<close> on the items of a parsed JSON object.\<close>

definition dict_get_default :: "(pyval \<times> pyval) list \<Rightarrow> string \<Rightarrow> pyval \<Rightarrow> pyval" where
  "dict_get_default items key dflt =
     (case map_of items (PStr key) of Some v \<Rightarrow> v | None \<Rightarrow> dflt)"

text \<open>
  The record \<^verbatim>\<open>device_info\<close> built from a 200 response; \<open>now\<close> stands for
  \<^verbatim>\<open>datetime.now().isoformat()\<close>.
\<close>

definition device_info :: "string \<Rightarrow> (pyval \<times> pyval) list \<Rightarrow> string \<Rightarrow> device" where
  "device_info ip items now =
     [(''ip_address'', PStr ip),
      (''mac_address'', dict_get_default items ''mac_address'' (PStr ''UNKNOWN'')),
      (''id'', dict_get_default items ''id'' (PStr ''UNKNOWN'')),
      (''wifi_connected'', dict_get_default items ''wifi_connected'' (PBool False)),
      (''firmware_version'', dict_get_default items ''firmware_version'' (PStr ''UNKNOWN'')),
      (''uptime_seconds'', dict_get_default items ''uptime_seconds'' (PInt 0)),
      (''last_seen'', PStr now),
      (''online'', PBool True)]"

text \<open>The counters of \<^verbatim>\<open>self.scan_stats\<close>.\<close>

record scan_stats =
  total_ips :: int
  scanned :: int
  found :: int
  errors :: int

text \<open>
  The three \<^verbatim>\<open>except\<close> clauses of \<^verbatim>\<open>scan_device\<close>, in their order: a timeout and an
  \<^verbatim>\<open>aiohttp.ClientError\<close> pass silently, any other exception adds one to the error
  tally. Each of them falls through to \<^verbatim>\<open>return None\<close>.
\<close>

fun scan_except :: "pyexc \<Rightarrow> scan_stats \<Rightarrow> device option \<times> scan_stats" where
  "scan_except TimeoutError stats = (None, stats)"
| "scan_except (ClientError msg) stats = (None, stats)"
| "scan_except e stats = (None, stats\<lparr>errors := errors stats + 1\<rparr>)"

text \<open>
  \<^verbatim>\<open>data.get\<close> exists only on a dictionary: any other parsed body raises
  \<^verbatim>\<open>AttributeError\<close> inside the \<^verbatim>\<open>try\<close> block.
\<close>

fun scan_body :: "string \<Rightarrow> string \<Rightarrow> pyval \<Rightarrow> pyexc + device" where
  "scan_body ip now (PDict items) = Inr (device_info ip items now)"
| "scan_body ip now data = Inl (AttributeError ''object has no attribute get'')"


section \<open>Loading the registry (device\_scanner.py, load\_existing\_map)\<close>

text \<open>
  The parts of Python's data model that the function touches: iterating a value,
  subscripting it with a string, and storing under a key, which must be hashable. Keys
  compare as Python compares them (\<^verbatim>\<open>True == 1\<close>, \<^verbatim>\<open>False == 0\<close>).
\<close>

fun py_iter :: "pyval \<Rightarrow> pyexc + pyval list" where
  "py_iter (PList xs) = Inr xs"
| "py_iter (PDict items) = Inr (map fst items)"
| "py_iter (PStr s) = Inr (map (\<lambda>c. PStr [c]) s)"
| "py_iter v = Inl (TypeError ''object is not iterable'')"

fun py_getitem :: "pyval \<Rightarrow> string \<Rightarrow> pyexc + pyval" where
  "py_getitem (PDict items) key =
     (case map_of items (PStr key) of Some v \<Rightarrow> Inr v | None \<Rightarrow> Inl (KeyError key))"
| "py_getitem v key = Inl (TypeError ''indices must be integers, or object is not subscriptable'')"

fun hashable :: "pyval \<Rightarrow> bool" where
  "hashable (PList xs) = False"
| "hashable (PDict items) = False"
| "hashable v = True"

fun py_key_eq :: "pyval \<Rightarrow> pyval \<Rightarrow> bool" where
  "py_key_eq (PBool b) (PInt i) = (i = (if b then 1 else 0))"
| "py_key_eq (PInt i) (PBool b) = (i = (if b then 1 else 0))"
| "py_key_eq a b = (a = b)"

fun pydict_set :: "(pyval \<times> pyval) list \<Rightarrow> pyval \<Rightarrow> pyval \<Rightarrow> (pyval \<times> pyval) list" where
  "pydict_set [] k v = [(k, v)]"
| "pydict_set ((k', v') # d) k v =
     (if py_key_eq k' k then (k', v) # d else (k', v') # pydict_set d k v)"

text \<open>
  The comprehension \<^verbatim>\<open>{d['mac_address']: d for d in ...}\<close>: the first item that has no
  such field, is not subscriptable, or carries an unhashable address raises.
\<close>

fun by_mac :: "pyval list \<Rightarrow> (pyval \<times> pyval) list \<Rightarrow> pyexc + (pyval \<times> pyval) list" where
  "by_mac [] acc = Inr acc"
| "by_mac (d # ds) acc =
     (case py_getitem d ''mac_address'' of
        Inl e \<Rightarrow> Inl e
      | Inr mac \<Rightarrow>
          if hashable mac then by_mac ds (pydict_set acc mac d)
          else Inl (TypeError ''unhashable type''))"

definition keyed_by_mac :: "pyval \<Rightarrow> pyexc + pyval" where
  "keyed_by_mac devices =
     (case py_iter devices of
        Inl e \<Rightarrow> Inl e
      | Inr ds \<Rightarrow> (case by_mac ds [] of Inl e \<Rightarrow> Inl e | Inr m \<Rightarrow> Inr (PDict m)))"

text \<open>What follows \<^verbatim>\<open>data = json.load(f)\<close> inside the \<^verbatim>\<open>try\<close> block.\<close>

fun load_body :: "pyval \<Rightarrow> pyexc + pyval" where
  "load_body (PDict items) =
     (case map_of items (PStr ''devices'') of
        Some devices \<Rightarrow> keyed_by_mac devices
      | None \<Rightarrow> Inr (PDict items))"
| "load_body (PList xs) = keyed_by_mac (PList xs)"
| "load_body data = Inr data"

text \<open>
  The map file, as \<^verbatim>\<open>load_existing_map\<close> meets it. The existence check
  \<^verbatim>\<open>self.map_file.exists()\<close> stands before the \<^verbatim>\<open>try\<close> block; up to Python 3.11 it
  raises \<^verbatim>\<open>OSError\<close> for a failure other than a missing file (a name that is too long,
  a directory that may not be searched). Otherwise the file is absent, or present;
  opening and parsing a present file (\<^verbatim>\<open>open\<close>, \<^verbatim>\<open>json.load\<close>) raises or yields the
  parsed data.
\<close>

datatype map_file = ExistsRaises pyexc | Absent | Present "pyexc + pyval"

fun load_existing_map :: "map_file \<Rightarrow> pyexc + pyval" where
  "load_existing_map (ExistsRaises e) = Inl e"
| "load_existing_map Absent = Inr (PDict [])"
| "load_existing_map (Present (Inl e)) = Inr (PDict [])"
| "load_existing_map (Present (Inr data)) =
     Inr (case load_body data of Inl e \<Rightarrow> PDict [] | Inr m \<Rightarrow> m)"

section \<open>From the loaded map to the merge (device\_scanner.py, run)\<close>

text \<open>
  \<^verbatim>\<open>run\<close> hands what \<^verbatim>\<open>load_existing_map\<close> returned to \<^verbatim>\<open>len\<close> and to
  \<^verbatim>\<open>merge_device_maps\<close>, which in the modes \<^verbatim>\<open>add\<close> and \<^verbatim>\<open>update\<close> copies it and assigns
  \<^verbatim>\<open>online\<close> in each of its values. A number, a boolean and \<^verbatim>\<open>None\<close> have no \<^verbatim>\<open>len()\<close>, a
  string has no \<^verbatim>\<open>copy()\<close>, and a value of the dictionary that is not itself a dictionary
  takes no item assignment: each raises. A dictionary of dictionaries whose keys and
  field names are strings is the device map of the merge. A dictionary of
  dictionaries with a key that is not a string is valid for Python and outside the typed
  device map, and \<^verbatim>\<open>load_existing_map\<close> never returns a list: for these there is no
  answer.
\<close>

fun str_keys :: "(pyval \<times> 'a) list \<Rightarrow> (string \<times> 'a) list option" where
  "str_keys [] = Some []"
| "str_keys ((PStr k, v) # kvs) = map_option ((#) (k, v)) (str_keys kvs)"
| "str_keys (kv # kvs) = None"

fun is_dict :: "pyval \<Rightarrow> bool" where
  "is_dict (PDict items) = True"
| "is_dict v = False"

fun record_of :: "pyval \<Rightarrow> device option" where
  "record_of (PDict items) = str_keys items"
| "record_of v = None"

fun typed_records :: "(string \<times> pyval) list \<Rightarrow> device_map option" where
  "typed_records [] = Some []"
| "typed_records ((k, v) # kvs) =
     (case record_of v of
        None \<Rightarrow> None
      | Some dev \<Rightarrow> map_option ((#) (k, dev)) (typed_records kvs))"

fun registry_of :: "pyval \<Rightarrow> (pyexc + device_map) option" where
  "registry_of (PDict entries) =
     (if list_all (\<lambda>(k, v). is_dict v) entries then
        (case str_keys entries of
           None \<Rightarrow> None
         | Some es \<Rightarrow> map_option Inr (typed_records es))
      else Some (Inl (TypeError ''object does not support item assignment'')))"
| "registry_of (PStr s) = Some (Inl (AttributeError ''str object has no attribute copy''))"
| "registry_of (PList xs) = None"
| "registry_of v = Some (Inl (TypeError ''object has no len()''))"

text \<open>
  \<^verbatim>\<open>run\<close> up to \<^verbatim>\<open>final_map = self.merge_device_maps(existing_map, discovered)\<close>. The
  result of the scan is given; saving the map is not part of the model. An exception
  is logged and raised again.
\<close>

definition run :: "string \<Rightarrow> map_file \<Rightarrow> device_map \<Rightarrow> (pyexc + device_map) option" where
  "run mode file discovered =
     (if mode = ''add'' \<or> mode = ''update'' then
        (case load_existing_map file of
           Inl e \<Rightarrow> Some (Inl e)
         | Inr loaded \<Rightarrow>
             (case registry_of loaded of
                None \<Rightarrow> None
              | Some (Inl e) \<Rightarrow> Some (Inl e)
              | Some (Inr existing_map) \<Rightarrow>
                  Some (merge_device_maps mode existing_map discovered)))
      else Some (merge_device_maps mode [] discovered))"

section \<open>Batch dispatch (batch\_controller.py, send\_request and batch\_request)\<close>

text \<open>The dictionary \<^verbatim>\<open>result\<close> of \<^verbatim>\<open>send_request\<close>, whose keys are fixed.\<close>

record operation_result =
  device_id :: pyval
  ip_address :: pyval
  mac_address :: pyval
  success :: bool
  response :: pyval
  error :: "string option"

text \<open>\<^verbatim>\<open>device.get(key, default)\<close> on a device record.\<close>

definition device_get :: "device \<Rightarrow> string \<Rightarrow> pyval \<Rightarrow> pyval" where
  "device_get dev key dflt = (case map_of dev key of Some v \<Rightarrow> v | None \<Rightarrow> dflt)"

text \<open>The two \<^verbatim>\<open>except\<close> clauses of \<^verbatim>\<open>send_request\<close>.\<close>

fun send_except :: "pyexc \<Rightarrow> operation_result \<Rightarrow> operation_result" where
  "send_except TimeoutError res = res\<lparr>error := Some ''Timeout''\<rparr>"
| "send_except e res = res\<lparr>error := Some (str_exc e)\<rparr>"

text \<open>
  \<^verbatim>\<open>device['ip_address']\<close> stands before the \<^verbatim>\<open>try\<close> block, so a record without that
  field makes the coroutine itself raise \<^verbatim>\<open>KeyError\<close>. Inside the block the body is
  parsed first and the success flag is set after it.
\<close>

definition request_result :: "device \<Rightarrow> pyval \<Rightarrow> http_result \<Rightarrow> operation_result" where
  "request_result dev ip outcome =
     (let res = \<lparr>device_id = device_get dev ''id'' (PStr ''UNKNOWN''),
                 ip_address = ip,
                 mac_address = device_get dev ''mac_address'' (PStr ''UNKNOWN''),
                 success = False, response = PNone, error = None\<rparr>
      in case outcome of
           Inl e \<Rightarrow> send_except e res
         | Inr resp \<Rightarrow>
             (case json_body resp of
                Inl e \<Rightarrow> send_except e res
              | Inr body \<Rightarrow> res\<lparr>response := body, success := (status resp = 200)\<rparr>))"

definition send_request :: "device \<Rightarrow> http_result \<Rightarrow> pyexc + operation_result" where
  "send_request dev outcome =
     (case map_of dev ''ip_address'' of
        None \<Rightarrow> Inl (KeyError ''ip_address'')
      | Some ip \<Rightarrow> Inr (request_result dev ip outcome))"

text \<open>
  \<^verbatim>\<open>asyncio.gather\<close> without \<^verbatim>\<open>return_exceptions\<close>: the results in the order of the
  tasks, or the first exception a task raised.
\<close>

fun gather :: "(pyexc + 'a) list \<Rightarrow> pyexc + 'a list" where
  "gather [] = Inr []"
| "gather (Inl e # ts) = Inl e"
| "gather (Inr r # ts) = (case gather ts of Inl e \<Rightarrow> Inl e | Inr rs \<Rightarrow> Inr (r # rs))"

text \<open>
  One task per device; \<open>outcomes i\<close> is what the network does to the request of the
  \<open>i\<close>-th task. The order in which the tasks complete is not part of the result.
\<close>

definition batch_request :: "device list \<Rightarrow> (nat \<Rightarrow> http_result) \<Rightarrow> pyexc + operation_result list" where
  "batch_request devices outcomes =
     gather (map (\<lambda>i. send_request (devices ! i) (outcomes i)) [0..<length devices])"

text \<open>
  Two readings of a request's outcome: it was answered with status 200 and a body that
  parses as JSON; or it raised, while connecting or while reading the body.
\<close>

fun answered_ok :: "http_result \<Rightarrow> bool" where
  "answered_ok (Inl e) = False"
| "answered_ok (Inr resp) = (status resp = 200 \<and> \<not> isl (json_body resp))"


section \<open>Address enumeration (\<^verbatim>\<open>network.hosts()\<close> in scan\_network and provision\_single\_device)\<close>

text \<open>
  Modelled from the spec: the AddressEnumerator is the call
  \<^verbatim>\<open>[str(ip) for ip in ipaddress.ip_network(range, strict=False).hosts()]\<close>, and the
  module \<^verbatim>\<open>ipaddress\<close> is Python's standard library, which is not among the sources.
  The spec says that it expands a CIDR range into its host addresses with the network
  and the broadcast address excluded. The definitions follow the library on 32-bit
  addresses: the netmask of a prefix length, the network address with the host bits
  cleared (\<^verbatim>\<open>strict=False\<close>), the broadcast address, and \<^verbatim>\<open>hosts()\<close> as the range from
  the network address plus one up to, not including, the broadcast address; a /31
  yields both of its addresses and a /32 its single address. Parsing the text of a
  range is not modelled; IPv6 ranges are outside the model.
\<close>

type_synonym ipv4 = "32 word"

definition ALL_ONES :: ipv4 where
  "ALL_ONES = 2 ^ 32 - 1"

definition ip_int_from_prefix :: "nat \<Rightarrow> ipv4" where
  "ip_int_from_prefix prefixlen = ALL_ONES XOR drop_bit prefixlen ALL_ONES"

record ipv4_network =
  network_address :: ipv4
  prefixlen :: nat

text \<open>
  Modelled from the spec: \<^verbatim>\<open>ipaddress.ip_network(..., strict=False)\<close> of the standard
  library, applied to an address and a prefix length; the host bits are cleared.
\<close>

definition ip_network :: "ipv4 \<Rightarrow> nat \<Rightarrow> ipv4_network" where
  "ip_network addr p =
     \<lparr>network_address = addr AND ip_int_from_prefix p, prefixlen = p\<rparr>"

definition netmask :: "ipv4_network \<Rightarrow> ipv4" where
  "netmask net = ip_int_from_prefix (prefixlen net)"

definition hostmask :: "ipv4_network \<Rightarrow> ipv4" where
  "hostmask net = netmask net XOR ALL_ONES"

definition broadcast_address :: "ipv4_network \<Rightarrow> ipv4" where
  "broadcast_address net = network_address net OR hostmask net"

text \<open>
  Modelled from the spec: \<^verbatim>\<open>hosts()\<close> of the standard library, the host addresses of
  the range with the network and the broadcast address excluded.
\<close>

definition hosts :: "ipv4_network \<Rightarrow> ipv4 list" where
  "hosts net =
     (if prefixlen net = 31 then
        map of_nat [unat (network_address net) ..< unat (broadcast_address net) + 1]
      else if prefixlen net = 32 then [network_address net]
      else map of_nat [unat (network_address net) + 1 ..< unat (broadcast_address net)])"

text \<open>
  Modelled from the spec: \<^verbatim>\<open>str(ip)\<close> of the standard library, the four octets in
  decimal, joined by dots.
\<close>

definition digit_char :: "nat \<Rightarrow> char" where
  "digit_char n = ''0123456789'' ! n"

definition str_octet :: "nat \<Rightarrow> string" where
  "str_octet n =
     (if n < 10 then [digit_char n]
      else if n < 100 then [digit_char (n div 10), digit_char (n mod 10)]
      else [digit_char (n div 100), digit_char (n div 10 mod 10), digit_char (n mod 10)])"

definition str_ipv4 :: "ipv4 \<Rightarrow> string" where
  "str_ipv4 a =
     str_octet (unat (drop_bit 24 a)) @ ''.'' @
     str_octet (unat (take_bit 8 (drop_bit 16 a))) @ ''.'' @
     str_octet (unat (take_bit 8 (drop_bit 8 a))) @ ''.'' @
     str_octet (unat (take_bit 8 a))"

text \<open>\<^verbatim>\<open>all_ips = [str(ip) for ip in self.network.hosts()]\<close>\<close>

definition all_ips :: "ipv4_network \<Rightarrow> string list" where
  "all_ips net = map str_ipv4 (hosts net)"

section \<open>Single-device provisioning (id\_manager.py, provision\_single\_device)\<close>

text \<open>
  \<^verbatim>\<open>scan_single_device\<close> builds the same record as \<^verbatim>\<open>scan_device\<close>; each of its
  \<^verbatim>\<open>except\<close> clauses falls through to \<^verbatim>\<open>return None\<close> and none of them counts.
\<close>

definition scan_single_device :: "string \<Rightarrow> string \<Rightarrow> http_result \<Rightarrow> device option" where
  "scan_single_device ip now result =
     (case result of
        Inl e \<Rightarrow> None
      | Inr resp \<Rightarrow>
          if status resp = 200 then
            (case json_body resp of
               Inl e \<Rightarrow> None
             | Inr data \<Rightarrow>
                 (case scan_body ip now data of Inl e \<Rightarrow> None | Inr info \<Rightarrow> Some info))
          else None)"

text \<open>
  The world around the function: how the text of a range parses (to an address and a
  prefix length, or \<^verbatim>\<open>ValueError\<close>), what a GET of \<^verbatim>\<open>/api/status\<close> at an address gives,
  the time at which its answer is handled, and what the POST of \<^verbatim>\<open>{'id': new_id}\<close> to
  \<^verbatim>\<open>/api/id\<close> at an address gives: an exception or a status code.
\<close>

record provision_env =
  parse_network :: "string \<Rightarrow> pyexc + ipv4 \<times> nat"
  get_status :: "string \<Rightarrow> http_result"
  clock :: "string \<Rightarrow> string"
  post_id :: "pyval \<Rightarrow> string \<Rightarrow> pyexc + int"

text \<open>
  \<^verbatim>\<open>for i in range(0, len(all_ips), batch_size): batch = all_ips[i:i + batch_size]\<close>.
  A step of zero makes \<^verbatim>\<open>range\<close> raise \<^verbatim>\<open>ValueError\<close>; with a negative step the range
  is empty.
\<close>

function slices :: "nat \<Rightarrow> nat \<Rightarrow> 'a list \<Rightarrow> 'a list list" where
  "slices i step xs =
     (if step = 0 \<or> length xs \<le> i then []
      else take step (drop i xs) # slices (i + step) step xs)"
  by pat_completeness auto
termination
  by (relation "measure (\<lambda>(i, step, xs). length xs - i)") auto

definition range_batches :: "int \<Rightarrow> 'a list \<Rightarrow> pyexc + 'a list list" where
  "range_batches batch_size xs =
     (if batch_size = 0 then Inl (ValueError ''range() arg 3 must not be zero'')
      else if batch_size < 0 then Inr []
      else Inr (slices 0 (nat batch_size) xs))"

text \<open>
  One batch: the results of the probes in the order of the batch, those that are a
  device appended to \<^verbatim>\<open>found_devices\<close> (a record built by the probe is never empty, so
  \<^verbatim>\<open>if device\<close> keeps exactly the results that are not \<^verbatim>\<open>None\<close>).
\<close>

definition probe_batch :: "provision_env \<Rightarrow> string list \<Rightarrow> device list" where
  "probe_batch env batch =
     List.map_filter (\<lambda>ip. scan_single_device ip (clock env ip) (get_status env ip)) batch"

text \<open>
  What the function leaves behind: the value it returns, the errors it logs, and the
  HTTP requests it sends, in their order.
\<close>

datatype diagnostic =
    InvalidNetworkRange string
  | NoDevicesFound
  | MultipleDevicesFound "(pyval \<times> pyval \<times> pyval) list"
  | SetIdHttpError int
  | SetIdTimeout
  | SetIdError string

datatype http_call = GetStatus string | PostId pyval string

record provision_result =
  returned :: bool
  diagnostics :: "diagnostic list"
  calls :: "http_call list"

text \<open>
  The listing of the found devices when there are several: one line per device,
  \<^verbatim>\<open>f"IP: {device['ip_address']:<15} ID: {device['id']:<20} MAC: {device['mac_address']}"\<close>,
  built outside any \<^verbatim>\<open>try\<close> block. A format specification such as \<^verbatim>\<open>:<20\<close> is accepted by
  strings, integers and booleans; \<^verbatim>\<open>None\<close>, a list and a dictionary raise \<^verbatim>\<open>TypeError\<close>.
  The first line that raises ends the listing and the function.
\<close>

fun format_spec_ok :: "pyval \<Rightarrow> bool" where
  "format_spec_ok PNone = False"
| "format_spec_ok (PList xs) = False"
| "format_spec_ok (PDict items) = False"
| "format_spec_ok v = True"

definition listing_line :: "device \<Rightarrow> pyexc + pyval \<times> pyval \<times> pyval" where
  "listing_line dev =
     (case map_of dev ''ip_address'' of
        None \<Rightarrow> Inl (KeyError ''ip_address'')
      | Some ip \<Rightarrow>
          if format_spec_ok ip then
            (case map_of dev ''id'' of
               None \<Rightarrow> Inl (KeyError ''id'')
             | Some dev_id \<Rightarrow>
                 if format_spec_ok dev_id then
                   (case map_of dev ''mac_address'' of
                      None \<Rightarrow> Inl (KeyError ''mac_address'')
                    | Some mac \<Rightarrow> Inr (ip, dev_id, mac))
                 else Inl (TypeError ''unsupported format string passed to __format__''))
          else Inl (TypeError ''unsupported format string passed to __format__''))"

fun listing :: "device list \<Rightarrow> pyexc + (pyval \<times> pyval \<times> pyval) list" where
  "listing [] = Inr []"
| "listing (dev # devs) =
     (case listing_line dev of
        Inl e \<Rightarrow> Inl e
      | Inr line \<Rightarrow> (case listing devs of Inl e \<Rightarrow> Inl e | Inr ls \<Rightarrow> Inr (line # ls)))"

text \<open>The branch for exactly one found device: one POST, and its three endings.\<close>

definition set_new_id ::
  "provision_env \<Rightarrow> http_call list \<Rightarrow> device \<Rightarrow> string \<Rightarrow> pyexc + provision_result" where
  "set_new_id env sent dev new_id =
     (case map_of dev ''ip_address'' of
        None \<Rightarrow> Inl (KeyError ''ip_address'')
      | Some ip \<Rightarrow>
          (case post_id env ip new_id of
             Inl TimeoutError \<Rightarrow>
               Inr \<lparr>returned = False, diagnostics = [SetIdTimeout],
                    calls = sent @ [PostId ip new_id]\<rparr>
           | Inl e \<Rightarrow>
               Inr \<lparr>returned = False, diagnostics = [SetIdError (str_exc e)],
                    calls = sent @ [PostId ip new_id]\<rparr>
           | Inr code \<Rightarrow>
               if code = 200 then
                 Inr \<lparr>returned = True, diagnostics = [], calls = sent @ [PostId ip new_id]\<rparr>
               else
                 Inr \<lparr>returned = False, diagnostics = [SetIdHttpError code],
                      calls = sent @ [PostId ip new_id]\<rparr>))"

definition provision_single_device ::
  "provision_env \<Rightarrow> string \<Rightarrow> string \<Rightarrow> int \<Rightarrow> pyexc + provision_result" where
  "provision_single_device env network_range new_id concurrent_limit =
     (case parse_network env network_range of
        Inl (ValueError msg) \<Rightarrow>
          Inr \<lparr>returned = False, diagnostics = [InvalidNetworkRange msg], calls = []\<rparr>
      | Inl e \<Rightarrow> Inl e
      | Inr (addr, p) \<Rightarrow>
          (case range_batches concurrent_limit (all_ips (ip_network addr p)) of
             Inl e \<Rightarrow> Inl e
           | Inr batches \<Rightarrow>
               let found_devices = concat (map (probe_batch env) batches);
                   sent = map GetStatus (concat batches)
               in (case found_devices of
                     [] \<Rightarrow>
                       Inr \<lparr>returned = False, diagnostics = [NoDevicesFound], calls = sent\<rparr>
                   | [dev] \<Rightarrow> set_new_id env sent dev new_id
                   | _ \<Rightarrow>
                       (case listing found_devices of
                          Inl e \<Rightarrow> Inl e
                        | Inr listed \<Rightarrow>
                            Inr \<lparr>returned = False,
                                 diagnostics = [MultipleDevicesFound listed],
                                 calls = sent\<rparr>))))"

text \<open>The ID-change requests among the requests sent.\<close>

fun is_post :: "http_call \<Rightarrow> bool" where
  "is_post (PostId ip new_id) = True"
| "is_post (GetStatus ip) = False"

section \<open>Example data\<close>

definition ex_dev_A :: device where
  "ex_dev_A =
     [(''ip_address'', PStr ''192.168.1.10''), (''mac_address'', PStr ''AA:00:00:00:00:01''),
      (''id'', PStr ''LOUD-001''), (''online'', PBool True),
      (''location'', PStr ''stage left'')]"

definition ex_dev_A' :: device where
  "ex_dev_A' =
     [(''ip_address'', PStr ''192.168.1.77''), (''mac_address'', PStr ''AA:00:00:00:00:01''),
      (''id'', PStr ''LOUD-009''), (''online'', PBool True)]"

definition ex_dev_B :: device where
  "ex_dev_B =
     [(''ip_address'', PStr ''192.168.1.11''), (''mac_address'', PStr ''AA:00:00:00:00:02''),
      (''id'', PStr ''LOUD-002''), (''online'', PBool True)]"

definition ex_found_A :: device where
  "ex_found_A =
     device_info ''192.168.1.77''
       [(PStr ''mac_address'', PStr ''AA:00:00:00:00:01''), (PStr ''id'', PStr ''LOUD-009'')]
       ''2025-01-01T10:00:00''"

definition ex_found_C :: device where
  "ex_found_C =
     device_info ''192.168.1.12'' [(PStr ''mac_address'', PStr ''AA:00:00:00:00:03'')]
       ''2025-01-01T10:00:01''"



text \<open>
  A network 192.168.1.4/30 with one device, at 192.168.1.5, that accepts the new ID.
\<close>

definition ex_env :: provision_env where
  "ex_env =
     \<lparr>parse_network =
        (\<lambda>s. if s = ''192.168.1.4/30'' then Inr (0xC0A80104, 30)
             else Inl (ValueError ''does not appear to be an IPv4 or IPv6 network'')),
      get_status =
        (\<lambda>ip. if ip = ''192.168.1.5''
              then Inr \<lparr>status = 200,
                        json_body = Inr (PDict [(PStr ''mac_address'', PStr ''AA:00:00:00:00:05''),
                                                (PStr ''id'', PStr ''UNSET'')])\<rparr>
              else Inl TimeoutError),
      clock = (\<lambda>ip. ''2025-01-01T10:00:00''),
      post_id = (\<lambda>ip new_id. Inr 200)\<rparr>"

text \<open>
  The same network with a device at each of its two host addresses; both report
  \<^verbatim>\<open>"id": null\<close>.
\<close>

definition ex_env_null_ids :: provision_env where
  "ex_env_null_ids =
     \<lparr>parse_network =
        (\<lambda>s. if s = ''192.168.1.4/30'' then Inr (0xC0A80104, 30)
             else Inl (ValueError ''does not appear to be an IPv4 or IPv6 network'')),
      get_status =
        (\<lambda>ip. Inr \<lparr>status = 200,
                    json_body = Inr (PDict [(PStr ''mac_address'', PStr ''AA:00:00:00:00:05''),
                                            (PStr ''id'', PNone)])\<rparr>),
      clock = (\<lambda>ip. ''2025-01-01T10:00:00''),
      post_id = (\<lambda>ip new_id. Inr 200)\<rparr>"

section \<open>Facts about dictionaries\<close>

lemma map_of_dict_set: "map_of (dict_set d k v) = (map_of d)(k \<mapsto> v)"
  by (induction d) (auto simp: fun_eq_iff)

lemma keys_dict_set:
  "map fst (dict_set d k v) = (if k \<in> fst ` set d then map fst d else map fst d @ [k])"
  by (induction d) force+

lemma distinct_dict_set: "distinct (map fst d) \<Longrightarrow> distinct (map fst (dict_set d k v))"
  by (simp add: keys_dict_set)

lemma map_of_fold_dict_set:
  "map_of (fold (\<lambda>(k, v) acc. dict_set acc k v) other d) = map_of d ++ map_of (rev other)"
  by (induction other arbitrary: d) (auto simp: map_of_dict_set fun_eq_iff map_add_def split: option.splits)

lemma map_of_rev_distinct:
  "distinct (map fst xs) \<Longrightarrow> map_of (rev xs) = map_of xs"
proof (induction xs)
  case Nil
  then show ?case by simp
next
  case (Cons x xs)
  then have "fst x \<notin> dom (map_of (rev xs))"
    by (simp add: dom_map_of_conv_image_fst)
  with Cons show ?case
    by (cases x) (auto simp: fun_eq_iff map_add_def domIff split: option.splits)
qed

lemma map_of_dict_update:
  "distinct (map fst other) \<Longrightarrow> map_of (dict_update d other) = map_of d ++ map_of other"
  unfolding dict_update_def map_of_fold_dict_set
  by (simp add: map_of_rev_distinct)

lemma map_of_mark_offline:
  "map_of (mark_offline m) mac = map_option (\<lambda>dev. dict_set dev ''online'' (PBool False)) (map_of m mac)"
  unfolding mark_offline_def by (induction m) auto

lemma keys_mark_offline: "map fst (mark_offline m) = map fst m"
  unfolding mark_offline_def by (induction m) auto

lemma add_step_other:
  "mac \<noteq> fst kd \<Longrightarrow> map_of (add_step kd m) mac = map_of m mac"
  by (cases kd) (auto simp: map_of_dict_set split: option.splits)

lemma update_step_other:
  "mac \<noteq> fst kd \<Longrightarrow> map_of (update_step kd m) mac = map_of m mac"
  by (cases kd) (auto simp: map_of_dict_set split: option.splits)

lemma fold_add_step_absent:
  "mac \<notin> fst ` set new \<Longrightarrow> map_of (fold add_step new m) mac = map_of m mac"
  by (induction new arbitrary: m) (auto simp: add_step_other)

lemma fold_update_step_absent:
  "mac \<notin> fst ` set new \<Longrightarrow> map_of (fold update_step new m) mac = map_of m mac"
  by (induction new arbitrary: m) (auto simp: update_step_other)

lemma keys_update_step: "map fst (update_step kd m) = map fst m"
  by (cases kd) (auto simp: keys_dict_set map_of_eq_None_iff split: option.splits dest: map_of_SomeD)

lemma keys_fold_update_step: "map fst (fold update_step new m) = map fst m"
  by (induction new arbitrary: m) (auto simp: keys_update_step)

lemma add_step_same:
  "map_of (add_step (mac, dev) m) mac =
     Some (case map_of m mac of Some old \<Rightarrow> dict_update old dev | None \<Rightarrow> dev)"
  by (auto simp: map_of_dict_set split: option.splits)

lemma update_step_same:
  "map_of (update_step (mac, dev) m) mac =
     (case map_of m mac of Some old \<Rightarrow> Some (dict_update old dev) | None \<Rightarrow> None)"
  by (auto simp: map_of_dict_set split: option.splits)

lemma fold_add_step_present:
  "distinct (map fst new) \<Longrightarrow> map_of new mac = Some dev \<Longrightarrow>
   map_of (fold add_step new m) mac =
     Some (case map_of m mac of Some old \<Rightarrow> dict_update old dev | None \<Rightarrow> dev)"
proof (induction new arbitrary: m)
  case Nil
  then show ?case by simp
next
  case (Cons kd new)
  obtain k d where kd: "kd = (k, d)" by (cases kd)
  show ?case
  proof (cases "k = mac")
    case True
    with Cons.prems kd have "mac \<notin> fst ` set new" "d = dev" by auto
    then show ?thesis using kd True
      by (simp add: fold_add_step_absent add_step_same del: add_step.simps)
  next
    case False
    with Cons.prems kd have "distinct (map fst new)" "map_of new mac = Some dev" by auto
    from Cons.IH[OF this] show ?thesis using kd False
      by (simp add: add_step_other del: add_step.simps)
  qed
qed

lemma fold_update_step_present:
  "distinct (map fst new) \<Longrightarrow> map_of new mac = Some dev \<Longrightarrow>
   map_of (fold update_step new m) mac =
     (case map_of m mac of Some old \<Rightarrow> Some (dict_update old dev) | None \<Rightarrow> None)"
proof (induction new arbitrary: m)
  case Nil
  then show ?case by simp
next
  case (Cons kd new)
  obtain k d where kd: "kd = (k, d)" by (cases kd)
  show ?case
  proof (cases "k = mac")
    case True
    with Cons.prems kd have "mac \<notin> fst ` set new" "d = dev" by auto
    then show ?thesis using kd True
      by (simp add: fold_update_step_absent update_step_same del: update_step.simps)
  next
    case False
    with Cons.prems kd have "distinct (map fst new)" "map_of new mac = Some dev" by auto
    from Cons.IH[OF this] show ?thesis using kd False
      by (simp add: update_step_other del: update_step.simps)
  qed
qed

section \<open>Properties of the merge\<close>

text \<open>
  Claim C4. Under the policy \<^verbatim>\<open>create\<close> the merge returns exactly the discovered map
  and discards the existing map entirely, whatever the two maps are; so existing
  \<open>{A, B}\<close> with discovered \<open>{C}\<close> yields exactly \<open>{C}\<close>.
\<close>

theorem merge_create_returns_discovered:
  "merge_device_maps ''create'' existing new = Inr new
   \<and> merge_device_maps ''create'' [(macA, a), (macB, b)] [(macC, c)] = Inr [(macC, c)]"
  by (simp add: merge_device_maps_def)

lemma device_info_distinct: "distinct (map fst (device_info ip items now))"
  by (simp add: device_info_def)

lemma device_info_online: "map_of (device_info ip items now) ''online'' = Some (PBool True)"
  by (simp add: device_info_def)

text \<open>
  Claim C1, as amended. The claim speaks of all three policies, and under \<^verbatim>\<open>create\<close>
  it fails: the result is the discovered map, so an existing device that was not
  discovered is gone. Under \<^verbatim>\<open>add\<close> and \<^verbatim>\<open>update\<close> it holds: for every key of the
  existing map that is not a key of the discovered map, the merged map holds that
  device's record with \<^verbatim>\<open>online\<close> set to false and every other field as it was;
  under \<^verbatim>\<open>create\<close> the result is the discovered map, which has no record for it.
\<close>

theorem merge_keeps_undiscovered_devices:
  assumes "mode = ''add'' \<or> mode = ''update''"
    and "map_of existing mac = Some dev"
    and "mac \<notin> fst ` set new"
  shows "\<exists>merged dev'. merge_device_maps mode existing new = Inr merged
           \<and> map_of merged mac = Some dev'
           \<and> dev' = dict_set dev ''online'' (PBool False)
           \<and> map_of dev' ''online'' = Some (PBool False)
           \<and> (\<forall>field. field \<noteq> ''online'' \<longrightarrow> map_of dev' field = map_of dev field)
           \<and> merge_device_maps ''create'' existing new = Inr new
           \<and> map_of new mac = None"
  using assms
  by (auto simp: merge_device_maps_def fold_add_step_absent fold_update_step_absent
        map_of_mark_offline map_of_dict_set map_of_eq_None_iff)

theorem merge_keeps_undiscovered_devices_witness:
  "map_of [(''AA:00:00:00:00:01'', ex_dev_A)] ''AA:00:00:00:00:01'' = Some ex_dev_A
   \<and> ''AA:00:00:00:00:01'' \<notin> fst ` set [(''AA:00:00:00:00:02'', ex_dev_B)]
   \<and> (\<exists>merged. merge_device_maps ''update'' [(''AA:00:00:00:00:01'', ex_dev_A)]
           [(''AA:00:00:00:00:02'', ex_dev_B)] = Inr merged
         \<and> map_of merged ''AA:00:00:00:00:01'' =
             Some [(''ip_address'', PStr ''192.168.1.10''),
                   (''mac_address'', PStr ''AA:00:00:00:00:01''),
                   (''id'', PStr ''LOUD-001''), (''online'', PBool False),
                   (''location'', PStr ''stage left'')])"
  using merge_keeps_undiscovered_devices [of "''update''" "[(''AA:00:00:00:00:01'', ex_dev_A)]"
      "''AA:00:00:00:00:01''" ex_dev_A "[(''AA:00:00:00:00:02'', ex_dev_B)]"]
  by (auto simp: ex_dev_A_def)

text \<open>
  The claim as stated fails under \<^verbatim>\<open>create\<close>: with the existing map \<open>{A}\<close> and nothing
  discovered, the merged map holds no record for \<open>A\<close>.
\<close>

theorem merge_create_drops_undiscovered_counterexample:
  "\<not> (\<exists>merged dev'.
         merge_device_maps ''create'' [(''AA:00:00:00:00:01'', ex_dev_A)] [] = Inr merged
         \<and> map_of merged ''AA:00:00:00:00:01'' = Some dev')"
  by (simp add: merge_device_maps_def)

text \<open>
  Claim C2. Under \<^verbatim>\<open>update\<close> the merged map has exactly the keys of the existing map
  (in the same order). A discovered record whose MAC is a key of the existing map is
  written over that record, which was marked offline first: every field the discovered
  record has takes its value, the other fields stay. A MAC that is not a key of the
  existing map is not a key of the result, whether it was discovered or not. The
  discovered map and its records are dictionaries: their keys are distinct.
\<close>

theorem merge_update_frozen_keys:
  assumes "distinct (map fst new)"
    and "\<forall>(mac, dev) \<in> set new. distinct (map fst dev)"
  shows "\<exists>merged. merge_device_maps ''update'' existing new = Inr merged
           \<and> map fst merged = map fst existing
           \<and> (\<forall>mac old dev. map_of existing mac = Some old \<and> map_of new mac = Some dev \<longrightarrow>
                 (\<exists>rec. map_of merged mac = Some rec
                    \<and> rec = dict_update (dict_set old ''online'' (PBool False)) dev
                    \<and> (\<forall>field. map_of rec field =
                          (case map_of dev field of
                             Some v \<Rightarrow> Some v
                           | None \<Rightarrow> map_of (dict_set old ''online'' (PBool False)) field))))
           \<and> (\<forall>mac. map_of existing mac = None \<longrightarrow> map_of merged mac = None)"
proof -
  let ?merged = "fold update_step new (mark_offline existing)"
  have keys: "map fst ?merged = map fst existing"
    by (simp add: keys_fold_update_step keys_mark_offline)
  have absent: "map_of ?merged mac = None" if "map_of existing mac = None" for mac
  proof -
    from that have "mac \<notin> set (map fst existing)"
      by (simp add: map_of_eq_None_iff)
    with keys have "mac \<notin> set (map fst ?merged)" by simp
    then show ?thesis by (simp add: map_of_eq_None_iff)
  qed
  have present: "map_of ?merged mac = Some (dict_update (dict_set old ''online'' (PBool False)) dev)"
    if "map_of existing mac = Some old" "map_of new mac = Some dev" for mac old dev
    using that assms(1) by (simp add: fold_update_step_present map_of_mark_offline)
  have fields: "map_of (dict_update d dev) field =
      (case map_of dev field of Some v \<Rightarrow> Some v | None \<Rightarrow> map_of d field)"
    if "map_of new mac = Some dev" for mac dev d field
  proof -
    from that have "(mac, dev) \<in> set new" by (rule map_of_SomeD)
    with assms(2) have "distinct (map fst dev)" by blast
    then show ?thesis
      by (simp add: map_of_dict_update map_add_def)
  qed
  have matched: "\<forall>mac old dev. map_of existing mac = Some old \<and> map_of new mac = Some dev \<longrightarrow>
      (\<exists>rec. map_of ?merged mac = Some rec
         \<and> rec = dict_update (dict_set old ''online'' (PBool False)) dev
         \<and> (\<forall>field. map_of rec field =
               (case map_of dev field of
                  Some v \<Rightarrow> Some v
                | None \<Rightarrow> map_of (dict_set old ''online'' (PBool False)) field)))"
  proof (intro allI impI, elim conjE)
    fix mac old dev
    assume old: "map_of existing mac = Some old" and dev: "map_of new mac = Some dev"
    from present [OF old dev] fields [OF dev]
    show "\<exists>rec. map_of ?merged mac = Some rec
         \<and> rec = dict_update (dict_set old ''online'' (PBool False)) dev
         \<and> (\<forall>field. map_of rec field =
               (case map_of dev field of
                  Some v \<Rightarrow> Some v
                | None \<Rightarrow> map_of (dict_set old ''online'' (PBool False)) field))"
      by blast
  qed
  have "merge_device_maps ''update'' existing new = Inr ?merged"
    by (simp add: merge_device_maps_def)
  with keys absent matched show ?thesis
    by blast
qed

text \<open>Existing \<open>{A}\<close>, discovered \<open>{A', B}\<close>: the result holds \<open>A\<close> alone, with the fields of \<open>A'\<close>.\<close>

theorem merge_update_frozen_keys_witness:
  "distinct (map fst [(''AA:00:00:00:00:01'', ex_dev_A'), (''AA:00:00:00:00:02'', ex_dev_B)])
   \<and> distinct (map fst ex_dev_A') \<and> distinct (map fst ex_dev_B)
   \<and> merge_device_maps ''update'' [(''AA:00:00:00:00:01'', ex_dev_A)]
        [(''AA:00:00:00:00:01'', ex_dev_A'), (''AA:00:00:00:00:02'', ex_dev_B)]
      = Inr [(''AA:00:00:00:00:01'',
              [(''ip_address'', PStr ''192.168.1.77''),
               (''mac_address'', PStr ''AA:00:00:00:00:01''),
               (''id'', PStr ''LOUD-009''), (''online'', PBool True),
               (''location'', PStr ''stage left'')])]"
proof -
  let ?new = "[(''AA:00:00:00:00:01'', ex_dev_A'), (''AA:00:00:00:00:02'', ex_dev_B)]"
  have keys: "distinct (map fst ?new)"
    by simp
  have fields: "distinct (map fst ex_dev_A')" "distinct (map fst ex_dev_B)"
    by (simp_all add: ex_dev_A'_def ex_dev_B_def)
  then have records: "\<forall>(mac, dev) \<in> set ?new. distinct (map fst dev)"
    by simp
  from merge_update_frozen_keys [OF keys records, of "[(''AA:00:00:00:00:01'', ex_dev_A)]"]
    keys fields
  show ?thesis
    by (simp add: merge_device_maps_def mark_offline_def dict_update_def ex_dev_A_def
          ex_dev_A'_def)
qed

text \<open>
  Claim C3, as amended. The claim says that a discovered record whose MAC is already a
  key ends with \<^verbatim>\<open>online\<close> true, for every discovered map. The merge never writes that
  value: it marks the existing record offline and updates it with the discovered
  record, so \<^verbatim>\<open>online\<close> ends as the discovered record reports it, and stays false when
  the discovered record has no such field. What holds under \<^verbatim>\<open>add\<close>, for every existing
  map and every discovered map (dictionaries: distinct keys, distinct field names): an
  existing device that was not discovered is kept with \<^verbatim>\<open>online\<close> false; an existing
  device that was discovered is its old record, marked offline, updated with the
  discovered one, so that every field the discovery reports has the reported value and
  every other field keeps its old value; its \<^verbatim>\<open>online\<close> field is the reported one, which
  is true for every record that the probe builds (\<open>device_info\<close>), and false if none is
  reported; a discovered device that is not in the existing map is inserted as it was
  discovered; and nothing else is in the result. In particular existing \<open>{A}\<close> with
  nothing discovered yields \<open>{A}\<close> with \<^verbatim>\<open>online\<close> false.
\<close>

theorem merge_add_marks_updates_inserts:
  assumes "distinct (map fst new)"
    and "\<forall>(mac, dev) \<in> set new. distinct (map fst dev)"
  shows "\<exists>merged. merge_device_maps ''add'' existing new = Inr merged
           \<and> (\<forall>mac old. map_of existing mac = Some old \<and> map_of new mac = None \<longrightarrow>
                 map_of merged mac = Some (dict_set old ''online'' (PBool False)))
           \<and> (\<forall>mac old dev. map_of existing mac = Some old \<and> map_of new mac = Some dev \<longrightarrow>
                 (\<exists>rec. map_of merged mac = Some rec
                    \<and> rec = dict_update (dict_set old ''online'' (PBool False)) dev
                    \<and> (\<forall>field. field \<noteq> ''online'' \<longrightarrow> map_of rec field =
                          (case map_of dev field of Some v \<Rightarrow> Some v | None \<Rightarrow> map_of old field))
                    \<and> map_of rec ''online'' =
                          (case map_of dev ''online'' of
                             Some v \<Rightarrow> Some v
                           | None \<Rightarrow> Some (PBool False))
                    \<and> (\<forall>ip items now. dev = device_info ip items now \<longrightarrow>
                          map_of rec ''online'' = Some (PBool True))))
           \<and> (\<forall>mac dev. map_of existing mac = None \<and> map_of new mac = Some dev \<longrightarrow>
                 map_of merged mac = Some dev)
           \<and> (\<forall>mac. map_of existing mac = None \<and> map_of new mac = None \<longrightarrow>
                 map_of merged mac = None)
           \<and> merge_device_maps ''add'' [(macA, a)] [] =
                 Inr [(macA, dict_set a ''online'' (PBool False))]"
proof -
  let ?merged = "fold add_step new (mark_offline existing)"
  have unseen: "map_of ?merged mac = map_of (mark_offline existing) mac"
    if "map_of new mac = None" for mac
    using that by (simp add: fold_add_step_absent map_of_eq_None_iff)
  have seen: "map_of ?merged mac =
      Some (case map_of (mark_offline existing) mac of
              Some old \<Rightarrow> dict_update old dev | None \<Rightarrow> dev)"
    if "map_of new mac = Some dev" for mac dev
    using that assms(1) by (rule fold_add_step_present[rotated])
  have fields: "map_of (dict_update d dev) field =
      (case map_of dev field of Some v \<Rightarrow> Some v | None \<Rightarrow> map_of d field)"
    if "map_of new mac = Some dev" for mac dev d field
  proof -
    from that have "(mac, dev) \<in> set new" by (rule map_of_SomeD)
    with assms(2) have "distinct (map fst dev)" by blast
    then show ?thesis
      by (simp add: map_of_dict_update map_add_def)
  qed
  have c1: "\<forall>mac old. map_of existing mac = Some old \<and> map_of new mac = None \<longrightarrow>
      map_of ?merged mac = Some (dict_set old ''online'' (PBool False))"
    using unseen by (simp add: map_of_mark_offline)
  have c2: "\<forall>mac old dev. map_of existing mac = Some old \<and> map_of new mac = Some dev \<longrightarrow>
      (\<exists>rec. map_of ?merged mac = Some rec
         \<and> rec = dict_update (dict_set old ''online'' (PBool False)) dev
         \<and> (\<forall>field. field \<noteq> ''online'' \<longrightarrow> map_of rec field =
               (case map_of dev field of Some v \<Rightarrow> Some v | None \<Rightarrow> map_of old field))
         \<and> map_of rec ''online'' =
               (case map_of dev ''online'' of Some v \<Rightarrow> Some v | None \<Rightarrow> Some (PBool False))
         \<and> (\<forall>ip items now. dev = device_info ip items now \<longrightarrow>
               map_of rec ''online'' = Some (PBool True)))"
  proof (intro allI impI, elim conjE)
    fix mac old dev
    assume old: "map_of existing mac = Some old" and dev: "map_of new mac = Some dev"
    let ?rec = "dict_update (dict_set old ''online'' (PBool False)) dev"
    have stored: "map_of ?merged mac = Some ?rec"
      using seen[OF dev] old by (simp add: map_of_mark_offline)
    have others: "\<forall>field. field \<noteq> ''online'' \<longrightarrow> map_of ?rec field =
        (case map_of dev field of Some v \<Rightarrow> Some v | None \<Rightarrow> map_of old field)"
      using fields[OF dev] by (auto simp: map_of_dict_set split: option.splits)
    have online: "map_of ?rec ''online'' =
        (case map_of dev ''online'' of Some v \<Rightarrow> Some v | None \<Rightarrow> Some (PBool False))"
      using fields[OF dev, of "dict_set old ''online'' (PBool False)" "''online''"]
      by (auto simp: map_of_dict_set split: option.splits)
    have probed: "\<forall>ip items now. dev = device_info ip items now \<longrightarrow>
        map_of ?rec ''online'' = Some (PBool True)"
      using online by (auto simp: device_info_online)
    from stored others online probed
    show "\<exists>rec. map_of ?merged mac = Some rec
         \<and> rec = dict_update (dict_set old ''online'' (PBool False)) dev
         \<and> (\<forall>field. field \<noteq> ''online'' \<longrightarrow> map_of rec field =
               (case map_of dev field of Some v \<Rightarrow> Some v | None \<Rightarrow> map_of old field))
         \<and> map_of rec ''online'' =
               (case map_of dev ''online'' of Some v \<Rightarrow> Some v | None \<Rightarrow> Some (PBool False))
         \<and> (\<forall>ip items now. dev = device_info ip items now \<longrightarrow>
               map_of rec ''online'' = Some (PBool True))"
      by blast
  qed
  have c3: "\<forall>mac dev. map_of existing mac = None \<and> map_of new mac = Some dev \<longrightarrow>
      map_of ?merged mac = Some dev"
    using seen by (simp add: map_of_mark_offline)
  have c4: "\<forall>mac. map_of existing mac = None \<and> map_of new mac = None \<longrightarrow>
      map_of ?merged mac = None"
    using unseen by (simp add: map_of_mark_offline)
  have c5: "merge_device_maps ''add'' [(macA, a)] [] =
      Inr [(macA, dict_set a ''online'' (PBool False))]"
    by (simp add: merge_device_maps_def mark_offline_def)
  have "merge_device_maps ''add'' existing new = Inr ?merged"
    by (simp add: merge_device_maps_def)
  with c1 c2 c3 c4 c5 show ?thesis by blast
qed

text \<open>
  Existing \<open>{A, B}\<close>, discovered \<open>{A, C}\<close> by the probe: \<open>A\<close> is updated in place, keeps its
  \<^verbatim>\<open>location\<close> and is online, \<open>B\<close> is kept offline, \<open>C\<close> is appended.
\<close>

theorem merge_add_marks_updates_inserts_witness:
  "distinct (map fst [(''AA:00:00:00:00:01'', ex_found_A), (''AA:00:00:00:00:03'', ex_found_C)])
   \<and> distinct (map fst ex_found_A) \<and> distinct (map fst ex_found_C)
   \<and> merge_device_maps ''add''
        [(''AA:00:00:00:00:01'', ex_dev_A), (''AA:00:00:00:00:02'', ex_dev_B)]
        [(''AA:00:00:00:00:01'', ex_found_A), (''AA:00:00:00:00:03'', ex_found_C)]
      = Inr [(''AA:00:00:00:00:01'',
              [(''ip_address'', PStr ''192.168.1.77''),
               (''mac_address'', PStr ''AA:00:00:00:00:01''),
               (''id'', PStr ''LOUD-009''), (''online'', PBool True),
               (''location'', PStr ''stage left''), (''wifi_connected'', PBool False),
               (''firmware_version'', PStr ''UNKNOWN''), (''uptime_seconds'', PInt 0),
               (''last_seen'', PStr ''2025-01-01T10:00:00'')]),
             (''AA:00:00:00:00:02'',
              [(''ip_address'', PStr ''192.168.1.11''),
               (''mac_address'', PStr ''AA:00:00:00:00:02''),
               (''id'', PStr ''LOUD-002''), (''online'', PBool False)]),
             (''AA:00:00:00:00:03'', ex_found_C)]"
proof -
  let ?new = "[(''AA:00:00:00:00:01'', ex_found_A), (''AA:00:00:00:00:03'', ex_found_C)]"
  have keys: "distinct (map fst ?new)"
    by simp
  have fields: "distinct (map fst ex_found_A)" "distinct (map fst ex_found_C)"
    by (simp_all add: ex_found_A_def ex_found_C_def device_info_distinct)
  then have records: "\<forall>(mac, dev) \<in> set ?new. distinct (map fst dev)"
    by simp
  from merge_add_marks_updates_inserts [OF keys records,
      of "[(''AA:00:00:00:00:01'', ex_dev_A), (''AA:00:00:00:00:02'', ex_dev_B)]"]
    keys fields
  show ?thesis
    by (simp add: merge_device_maps_def mark_offline_def dict_update_def ex_dev_A_def
          ex_dev_B_def ex_found_A_def device_info_def dict_get_default_def)
qed

text \<open>
  The claim as stated fails: existing \<open>{A}\<close>, online, and a discovered record for \<open>A\<close>
  that reports an \<^verbatim>\<open>id\<close> and no \<^verbatim>\<open>online\<close> field. The merged record has the new \<^verbatim>\<open>id\<close>
  and is offline.
\<close>

theorem merge_add_online_not_forced_counterexample:
  "merge_device_maps ''add'' [(''AA:00:00:00:00:01'', ex_dev_A)]
      [(''AA:00:00:00:00:01'', [(''id'', PStr ''LOUD-009'')])]
     = Inr [(''AA:00:00:00:00:01'',
             [(''ip_address'', PStr ''192.168.1.10''),
              (''mac_address'', PStr ''AA:00:00:00:00:01''),
              (''id'', PStr ''LOUD-009''), (''online'', PBool False),
              (''location'', PStr ''stage left'')])]
   \<and> \<not> (\<exists>merged rec.
          merge_device_maps ''add'' [(''AA:00:00:00:00:01'', ex_dev_A)]
            [(''AA:00:00:00:00:01'', [(''id'', PStr ''LOUD-009'')])] = Inr merged
          \<and> map_of merged ''AA:00:00:00:00:01'' = Some rec
          \<and> map_of rec ''online'' = Some (PBool True))"
  by (simp add: merge_device_maps_def mark_offline_def dict_update_def ex_dev_A_def)

section \<open>Properties of the probe\<close>



lemma scan_except_none: "fst (scan_except e stats) = None"
  by (cases e) auto




section \<open>Properties of the batch dispatch\<close>

lemma send_except_fields:
  "success (send_except e res) = success res \<and> response (send_except e res) = response res
   \<and> device_id (send_except e res) = device_id res
   \<and> error (send_except e res) = Some (if e = TimeoutError then ''Timeout'' else str_exc e)"
  by (cases e) auto

lemma request_result_success:
  "success (request_result dev ip outcome) \<longleftrightarrow> answered_ok outcome"
  by (auto simp: request_result_def Let_def send_except_fields split: sum.splits)






text \<open>
  Claim C10. For a device record with an address: a response with status 200 whose
  body does not parse as JSON (\<^verbatim>\<open>response.json()\<close> raises an exception other than a
  timeout) is recorded as a failure, \<^verbatim>\<open>success\<close> false, the text of the exception in
  \<^verbatim>\<open>error\<close> and no \<^verbatim>\<open>response\<close>. For every outcome of the request, \<^verbatim>\<open>success\<close> is true
  exactly when a response arrived with status 200 and a body that parsed.
\<close>

theorem send_request_unparsed_body_fails:
  assumes "map_of dev ''ip_address'' = Some ip"
  shows "(status resp = 200 \<and> json_body resp = Inl e \<and> e \<noteq> TimeoutError \<longrightarrow>
            (\<exists>res. send_request dev (Inr resp) = Inr res
               \<and> \<not> success res \<and> error res = Some (str_exc e) \<and> response res = PNone))
         \<and> (\<forall>outcome. \<exists>res. send_request dev outcome = Inr res
               \<and> (success res \<longleftrightarrow>
                    (\<exists>r body. outcome = Inr r \<and> status r = 200 \<and> json_body r = Inr body)))"
proof -
  have a: "status resp = 200 \<and> json_body resp = Inl e \<and> e \<noteq> TimeoutError \<longrightarrow>
      (\<exists>res. send_request dev (Inr resp) = Inr res
         \<and> \<not> success res \<and> error res = Some (str_exc e) \<and> response res = PNone)"
    using assms
    by (simp add: send_request_def request_result_def send_except_fields)
  have b: "\<exists>res. send_request dev outcome = Inr res
      \<and> (success res \<longleftrightarrow> (\<exists>r body. outcome = Inr r \<and> status r = 200 \<and> json_body r = Inr body))"
    for outcome
  proof -
    have "answered_ok outcome \<longleftrightarrow>
        (\<exists>r body. outcome = Inr r \<and> status r = 200 \<and> json_body r = Inr body)"
    proof (cases outcome)
      case (Inl e')
      then show ?thesis by simp
    next
      case (Inr r)
      then show ?thesis by (cases "json_body r") auto
    qed
    then show ?thesis
      using assms by (simp add: send_request_def request_result_success)
  qed
  from a b show ?thesis by blast
qed

theorem send_request_unparsed_body_fails_witness:
  "map_of [(''ip_address'', PStr ''192.168.1.21''), (''id'', PStr ''LOUD-021'')] ''ip_address''
     = Some (PStr ''192.168.1.21'')
   \<and> send_request [(''ip_address'', PStr ''192.168.1.21''), (''id'', PStr ''LOUD-021'')]
        (Inr \<lparr>status = 200, json_body = Inl (JSONDecodeError ''Expecting value: line 1 column 1'')\<rparr>)
     = Inr \<lparr>device_id = PStr ''LOUD-021'', ip_address = PStr ''192.168.1.21'',
            mac_address = PStr ''UNKNOWN'', success = False, response = PNone,
            error = Some ''Expecting value: line 1 column 1''\<rparr>"
proof -
  have ip: "map_of [(''ip_address'', PStr ''192.168.1.21''), (''id'', PStr ''LOUD-021'')] ''ip_address''
      = Some (PStr ''192.168.1.21'')"
    by simp
  from send_request_unparsed_body_fails [OF ip,
      of "\<lparr>status = 200, json_body = Inl (JSONDecodeError ''Expecting value: line 1 column 1'')\<rparr>"
         "JSONDecodeError ''Expecting value: line 1 column 1''"]
  show ?thesis
    by (simp add: send_request_def request_result_def device_get_def)
qed





lemma gather_raises:
  "Inl e \<in> set ts \<Longrightarrow> \<exists>e'. gather ts = Inl e'"
proof (induction ts)
  case Nil
  then show ?case by simp
next
  case (Cons t ts)
  show ?case
  proof (cases t)
    case (Inl e')
    then show ?thesis by simp
  next
    case (Inr r)
    with Cons.prems have "Inl e \<in> set ts" by auto
    from Cons.IH [OF this] Inr show ?thesis by auto
  qed
qed

text \<open>
  A record without \<^verbatim>\<open>ip_address\<close> makes its coroutine raise \<^verbatim>\<open>KeyError\<close> before the
  \<^verbatim>\<open>try\<close> block, and \<^verbatim>\<open>gather\<close> hands the exception on: the batch has no results.
\<close>

lemma batch_request_missing_address:
  assumes "dev \<in> set devices" and "map_of dev ''ip_address'' = None"
  shows "\<exists>e. batch_request devices outcomes = Inl e"
proof -
  from assms(1) obtain i where i: "i < length devices" "devices ! i = dev"
    by (auto simp: in_set_conv_nth)
  then have "send_request (devices ! i) (outcomes i) = Inl (KeyError ''ip_address'')"
    using assms(2) by (simp add: send_request_def)
  with i(1) have "Inl (KeyError ''ip_address'')
      \<in> set (map (\<lambda>i. send_request (devices ! i) (outcomes i)) [0..<length devices])"
    by (force simp: image_iff)
  then show ?thesis
    unfolding batch_request_def by (rule gather_raises)
qed




section \<open>Properties of loading the registry\<close>

lemma dict_set_fresh: "k \<notin> fst ` set d \<Longrightarrow> dict_set d k v = d @ [(k, v)]"
  by (induction d) auto

lemma fold_add_step_fresh:
  "distinct (map fst (acc @ new)) \<Longrightarrow> fold add_step new acc = acc @ new"
proof (induction new arbitrary: acc)
  case Nil
  then show ?case by simp
next
  case (Cons kd new)
  obtain k d where kd: "kd = (k, d)" by (cases kd)
  from Cons.prems kd have fresh: "k \<notin> fst ` set acc" by auto
  then have "map_of acc k = None" by (simp add: map_of_eq_None_iff)
  with fresh kd have step: "add_step kd acc = acc @ [kd]"
    by (simp add: dict_set_fresh)
  from Cons.prems have "distinct (map fst ((acc @ [kd]) @ new))" by simp
  from Cons.IH [OF this] step show ?case by simp
qed

lemma fold_update_step_empty: "fold update_step new [] = []"
  by (induction new) auto

lemma load_body_not_list: "load_body data = Inr m \<Longrightarrow> m \<noteq> PList xs"
  by (cases data) (auto simp: keyed_by_mac_def split: option.splits sum.splits)

lemma load_existing_map_not_list: "load_existing_map f \<noteq> Inr (PList xs)"
proof (cases f)
  case (ExistsRaises e)
  then show ?thesis by simp
next
  case Absent
  then show ?thesis by simp
next
  case (Present r)
  show ?thesis
  proof (cases r)
    case (Inl e)
    with Present show ?thesis by simp
  next
    case (Inr data)
    with Present show ?thesis
      by (cases "load_body data") (auto dest: load_body_not_list)
  qed
qed

lemma run_on_empty_registry:
  "mode = ''add'' \<or> mode = ''update'' \<Longrightarrow> load_existing_map file = Inr (PDict []) \<Longrightarrow>
     run mode file discovered = Some (merge_device_maps mode [] discovered)"
  by (auto simp: run_def)

text \<open>
  A file that parses and is not a registry is returned as it is, and the scan fails on
  it: the number 42 has no \<^verbatim>\<open>len()\<close>, and the values of \<^verbatim>\<open>{"a": 5}\<close> take no item
  assignment.
\<close>

lemma run_fails_on_non_registry:
  "run ''add'' (Present (Inr (PInt 42))) discovered = Some (Inl (TypeError ''object has no len()''))
   \<and> run ''update'' (Present (Inr (PDict [(PStr ''a'', PInt 5)]))) discovered
       = Some (Inl (TypeError ''object does not support item assignment''))"
  by (simp add: run_def)

text \<open>
  Claim C9, as amended. The claim says that every exception during the load is
  swallowed; the existence check stands before the \<^verbatim>\<open>try\<close> block, and what it raises is
  not. What holds: loading gives the empty map when the file is absent, when opening
  or parsing it raises (invalid JSON or any other error of the read), and when anything
  after the parse raises (a device without \<^verbatim>\<open>mac_address\<close>, a \<^verbatim>\<open>devices\<close> value that
  cannot be iterated): every exception raised inside the \<^verbatim>\<open>try\<close> block is swallowed.
  A scan in the mode \<^verbatim>\<open>add\<close> or \<^verbatim>\<open>update\<close> over such a file goes on exactly as over an
  absent file, with the empty registry, and the merge does not fail: \<^verbatim>\<open>update\<close> yields
  the empty map and \<^verbatim>\<open>add\<close> yields the discovered map. An exception of the existence
  check is handed on.
\<close>

theorem load_existing_map_swallows_errors:
  "load_existing_map Absent = Inr (PDict [])
   \<and> load_existing_map (Present (Inl e)) = Inr (PDict [])
   \<and> (load_body data = Inl e \<longrightarrow> load_existing_map (Present (Inr data)) = Inr (PDict []))
   \<and> load_existing_map (ExistsRaises e) = Inl e
   \<and> (mode = ''add'' \<or> mode = ''update'' \<longrightarrow>
         run mode Absent discovered = Some (merge_device_maps mode [] discovered)
         \<and> run mode (Present (Inl e)) discovered = run mode Absent discovered
         \<and> (load_body data = Inl e \<longrightarrow>
               run mode (Present (Inr data)) discovered = run mode Absent discovered))
   \<and> run ''update'' Absent discovered = Some (Inr [])
   \<and> (distinct (map fst discovered) \<longrightarrow> run ''add'' Absent discovered = Some (Inr discovered))"
proof -
  have loads: "load_existing_map Absent = Inr (PDict [])"
    "load_existing_map (Present (Inl e)) = Inr (PDict [])"
    "load_body data = Inl e \<longrightarrow> load_existing_map (Present (Inr data)) = Inr (PDict [])"
    "load_existing_map (ExistsRaises e) = Inl e"
    by simp_all
  have runs: "mode = ''add'' \<or> mode = ''update'' \<longrightarrow>
      run mode Absent discovered = Some (merge_device_maps mode [] discovered)
      \<and> run mode (Present (Inl e)) discovered = run mode Absent discovered
      \<and> (load_body data = Inl e \<longrightarrow>
            run mode (Present (Inr data)) discovered = run mode Absent discovered)"
    using loads by (auto simp: run_on_empty_registry)
  have update: "run ''update'' Absent discovered = Some (Inr [])"
    by (simp add: run_def merge_device_maps_def mark_offline_def fold_update_step_empty)
  have add: "distinct (map fst discovered) \<longrightarrow> run ''add'' Absent discovered = Some (Inr discovered)"
    using fold_add_step_fresh [of "[]" discovered]
    by (simp add: run_def merge_device_maps_def mark_offline_def)
  from loads runs update add show ?thesis
    by blast
qed

text \<open>
  A file that is not JSON, and a file whose only device has no \<^verbatim>\<open>mac_address\<close>: both
  load as the empty map, and a scan in the mode \<^verbatim>\<open>add\<close> that finds \<open>C\<close> ends with \<open>{C}\<close>.
\<close>

theorem load_existing_map_swallows_errors_witness:
  "load_body (PDict [(PStr ''devices'', PList [PDict [(PStr ''id'', PStr ''LOUD-001'')]])])
     = Inl (KeyError ''mac_address'')
   \<and> load_existing_map
        (Present (Inr (PDict [(PStr ''devices'', PList [PDict [(PStr ''id'', PStr ''LOUD-001'')]])])))
     = Inr (PDict [])
   \<and> load_existing_map (Present (Inl (JSONDecodeError ''Expecting value: line 1 column 1 (char 0)'')))
     = Inr (PDict [])
   \<and> distinct (map fst [(''AA:00:00:00:00:03'', ex_found_C)])
   \<and> run ''add''
        (Present (Inr (PDict [(PStr ''devices'', PList [PDict [(PStr ''id'', PStr ''LOUD-001'')]])])))
        [(''AA:00:00:00:00:03'', ex_found_C)]
     = Some (Inr [(''AA:00:00:00:00:03'', ex_found_C)])
   \<and> run ''add'' (Present (Inl (JSONDecodeError ''Expecting value: line 1 column 1 (char 0)'')))
        [(''AA:00:00:00:00:03'', ex_found_C)]
     = Some (Inr [(''AA:00:00:00:00:03'', ex_found_C)])"
proof -
  have raises: "load_body (PDict [(PStr ''devices'', PList [PDict [(PStr ''id'', PStr ''LOUD-001'')]])])
      = Inl (KeyError ''mac_address'')"
    by (simp add: keyed_by_mac_def)
  have keys: "distinct (map fst [(''AA:00:00:00:00:03'', ex_found_C)])"
    by simp
  from load_existing_map_swallows_errors [of "KeyError ''mac_address''"
      "PDict [(PStr ''devices'', PList [PDict [(PStr ''id'', PStr ''LOUD-001'')]])]"
      "''add''" "[(''AA:00:00:00:00:03'', ex_found_C)]"]
    load_existing_map_swallows_errors [of
      "JSONDecodeError ''Expecting value: line 1 column 1 (char 0)''"
      "PDict [(PStr ''devices'', PList [PDict [(PStr ''id'', PStr ''LOUD-001'')]])]"
      "''add''" "[(''AA:00:00:00:00:03'', ex_found_C)]"]
    raises keys
  show ?thesis
    by simp
qed

text \<open>
  The claim as stated fails: the existence check raises (here for a file name that is
  too long), load hands the exception on instead of returning the empty map, and the
  scan fails.
\<close>

theorem load_existing_map_exists_raises_counterexample:
  "load_existing_map (ExistsRaises (OSError ''[Errno 36] File name too long''))
     = Inl (OSError ''[Errno 36] File name too long'')
   \<and> load_existing_map (ExistsRaises (OSError ''[Errno 36] File name too long''))
       \<noteq> Inr (PDict [])
   \<and> run ''add'' (ExistsRaises (OSError ''[Errno 36] File name too long'')) []
       = Some (Inl (OSError ''[Errno 36] File name too long''))"
  by (simp add: run_def)

section \<open>Properties of the address enumeration\<close>

lemma unat_mask32: "h \<le> 32 \<Longrightarrow> unat (mask h :: 32 word) = 2 ^ h - 1"
proof -
  assume h: "h \<le> 32"
  have "uint (mask h :: 32 word) = mask h"
    using h by (simp add: uint_mask_eq min_def)
  then have "unat (mask h :: 32 word) = nat (mask h)"
    by (simp add: unat_eq_nat_uint)
  also have "\<dots> = 2 ^ h - 1"
    by (simp add: mask_eq_exp_minus_1 nat_diff_distrib nat_power_eq)
  finally show ?thesis .
qed

lemma ALL_ONES_minus1: "ALL_ONES = - 1"
  by (simp add: ALL_ONES_def)

lemma prefix_netmask: "p \<le> 32 \<Longrightarrow> ip_int_from_prefix p = NOT (mask (32 - p))"
  by (simp add: ip_int_from_prefix_def ALL_ONES_minus1)

lemma prefix_hostmask:
  "prefixlen net \<le> 32 \<Longrightarrow> hostmask net = mask (32 - prefixlen net)"
  by (simp add: hostmask_def netmask_def prefix_netmask ALL_ONES_minus1)

lemma unat_broadcast:
  assumes "prefixlen net \<le> 32"
    and "network_address net AND mask (32 - prefixlen net) = 0"
  shows "unat (broadcast_address net) = unat (network_address net) + 2 ^ (32 - prefixlen net) - 1"
proof -
  let ?n = "network_address net" and ?m = "mask (32 - prefixlen net) :: 32 word"
  have b: "broadcast_address net = ?n + ?m"
    using assms by (simp add: broadcast_address_def prefix_hostmask disjunctive_add_eq_or)
  have "?n \<le> ?n OR ?m" by (rule le_word_or2)
  then have "?n \<le> ?n + ?m"
    using assms(2) by (simp add: disjunctive_add_eq_or)
  then have "unat (?n + ?m) = unat ?n + unat ?m"
    by (simp add: unat_plus_simple)
  with b show ?thesis
    by (simp add: unat_mask32)
qed

lemma ip_network_host_bits:
  "p \<le> 32 \<Longrightarrow> network_address (ip_network addr p) AND mask (32 - p) = 0"
  by (simp add: ip_network_def prefix_netmask and.assoc)


lemma prefixlen_ip_network: "prefixlen (ip_network addr p) = p"
  by (simp add: ip_network_def)

lemma unat_of_nat_host:
  "k < 2 ^ 32 \<Longrightarrow> unat (of_nat k :: 32 word) = k"
  by (simp add: unat_of_nat)

lemma hosts_between:
  assumes "p \<le> 30" and "x \<in> set (hosts (ip_network addr p))"
  shows "unat (network_address (ip_network addr p)) < unat x
         \<and> unat x < unat (broadcast_address (ip_network addr p))"
proof -
  let ?net = "ip_network addr p"
  from assms(1) have p: "prefixlen ?net \<noteq> 31" "prefixlen ?net \<noteq> 32"
    by (simp_all add: prefixlen_ip_network)
  with assms(2) obtain k where k: "x = of_nat k"
    "unat (network_address ?net) + 1 \<le> k" "k < unat (broadcast_address ?net)"
    by (auto simp: hosts_def)
  have "unat (broadcast_address ?net) < 2 ^ 32"
    using unsigned_less [of "broadcast_address ?net"] by simp
  with k have "unat x = k"
    by (simp add: unat_of_nat_host)
  with k show ?thesis by simp
qed

text \<open>
  Claim C7. For every IPv4 range with a prefix length of at most 30 (an address and a
  prefix length, host bits cleared as \<^verbatim>\<open>strict=False\<close> does), the enumeration yields
  exactly \<open>2 ^ (32 - prefix) - 2\<close> addresses, and neither the network address nor the
  broadcast address is among them.
\<close>

theorem hosts_count_and_exclusions:
  assumes "p \<le> 30"
  shows "length (all_ips (ip_network addr p)) = 2 ^ (32 - p) - 2
         \<and> length (hosts (ip_network addr p)) = 2 ^ (32 - p) - 2
         \<and> network_address (ip_network addr p) \<notin> set (hosts (ip_network addr p))
         \<and> broadcast_address (ip_network addr p) \<notin> set (hosts (ip_network addr p))"
proof -
  let ?net = "ip_network addr p"
  from assms have p32: "prefixlen ?net \<le> 32"
    by (simp add: prefixlen_ip_network)
  have zero: "network_address ?net AND mask (32 - prefixlen ?net) = 0"
    using assms by (simp add: prefixlen_ip_network ip_network_host_bits)
  have b: "unat (broadcast_address ?net) = unat (network_address ?net) + 2 ^ (32 - p) - 1"
    using unat_broadcast [OF p32 zero] by (simp add: prefixlen_ip_network)
  from assms have "prefixlen ?net \<noteq> 31" "prefixlen ?net \<noteq> 32"
    by (simp_all add: prefixlen_ip_network)
  then have "length (hosts ?net) = unat (broadcast_address ?net) - (unat (network_address ?net) + 1)"
    by (simp add: hosts_def)
  with b have len: "length (hosts ?net) = 2 ^ (32 - p) - 2"
    by simp
  have "network_address ?net \<notin> set (hosts ?net)"
    using hosts_between [OF assms, of "network_address ?net" addr] by auto
  moreover have "broadcast_address ?net \<notin> set (hosts ?net)"
    using hosts_between [OF assms, of "broadcast_address ?net" addr] by auto
  ultimately show ?thesis
    using len by (simp add: all_ips_def)
qed

text \<open>The range 192.168.1.5/30: the hosts are 192.168.1.5 and 192.168.1.6.\<close>

theorem hosts_count_and_exclusions_witness:
  "(30::nat) \<le> 30
   \<and> length (all_ips (ip_network 0xC0A80105 30)) = 2
   \<and> all_ips (ip_network 0xC0A80105 30) = [''192.168.1.5'', ''192.168.1.6'']
   \<and> network_address (ip_network 0xC0A80105 30) = 0xC0A80104
   \<and> broadcast_address (ip_network 0xC0A80105 30) = 0xC0A80107"
proof -
  have net: "ip_network 0xC0A80105 30 = \<lparr>network_address = 0xC0A80104, prefixlen = 30\<rparr>"
    by (simp add: ip_network_def ip_int_from_prefix_def ALL_ONES_def)
  have bc: "broadcast_address \<lparr>network_address = 0xC0A80104, prefixlen = 30\<rparr> = 0xC0A80107"
    by (simp add: broadcast_address_def hostmask_def netmask_def ip_int_from_prefix_def
          ALL_ONES_def)
  have hs: "hosts \<lparr>network_address = 0xC0A80104, prefixlen = 30\<rparr> = [0xC0A80105, 0xC0A80106]"
    by (simp add: hosts_def bc)
  have ips: "all_ips (ip_network 0xC0A80105 30) = [''192.168.1.5'', ''192.168.1.6'']"
    by (simp add: all_ips_def net hs str_ipv4_def str_octet_def digit_char_def
          drop_bit_eq_div take_bit_eq_mod)
  from hosts_count_and_exclusions [of 30 "0xC0A80105"] net bc ips show ?thesis
    by simp
qed

section \<open>Properties of single-device provisioning\<close>

declare slices.simps [simp del]

lemma concat_slices: "0 < step \<Longrightarrow> concat (slices i step xs) = drop i xs"
proof (induction i step xs rule: slices.induct)
  case (1 i step xs)
  show ?case
  proof (cases "length xs \<le> i")
    case True
    then show ?thesis by (simp add: slices.simps [of i step xs])
  next
    case False
    with "1.prems" have unfold:
      "slices i step xs = take step (drop i xs) # slices (i + step) step xs"
      by (simp add: slices.simps [of i step xs])
    from False "1.prems" have "concat (slices (i + step) step xs) = drop (i + step) xs"
      by (intro "1.IH") auto
    also have "\<dots> = drop step (drop i xs)"
      by (simp add: add.commute)
    finally have "concat (slices i step xs) = take step (drop i xs) @ drop step (drop i xs)"
      by (simp only: unfold concat.simps)
    then show ?thesis
      by (simp only: append_take_drop_id)
  qed
qed

lemma range_batches_cover:
  "0 < batch_size \<Longrightarrow> \<exists>batches. range_batches batch_size xs = Inr batches \<and> concat batches = xs"
  by (simp add: range_batches_def concat_slices)

lemma probe_batch_append:
  "probe_batch env (xs @ ys) = probe_batch env xs @ probe_batch env ys"
  by (simp add: probe_batch_def List.map_filter_def)

lemma probe_batch_concat:
  "concat (map (probe_batch env) batches) = probe_batch env (concat batches)"
  by (induction batches) (simp_all add: probe_batch_append, simp add: probe_batch_def List.map_filter_def)

lemma scan_single_device_builds_device_info:
  "scan_single_device ip now result = Some dev \<Longrightarrow> \<exists>items. dev = device_info ip items now"
  by (cases result)
     (auto simp: scan_single_device_def split: sum.splits if_splits elim: scan_body.elims)

lemma probe_batch_member:
  "dev \<in> set (probe_batch env ips) \<Longrightarrow>
     \<exists>ip \<in> set ips. \<exists>items. dev = device_info ip items (clock env ip)"
proof (induction ips)
  case Nil
  then show ?case by (simp add: probe_batch_def)
next
  case (Cons ip ips)
  show ?case
  proof (cases "scan_single_device ip (clock env ip) (get_status env ip)")
    case None
    with Cons show ?thesis by (auto simp: probe_batch_def)
  next
    case (Some d)
    with Cons.prems have "dev = d \<or> dev \<in> set (probe_batch env ips)"
      by (auto simp: probe_batch_def)
    then show ?thesis
      using Cons.IH scan_single_device_builds_device_info [OF Some] by auto
  qed
qed

lemma device_info_ip: "map_of (device_info ip items now) ''ip_address'' = Some (PStr ip)"
  by (simp add: device_info_def)

lemma set_new_id_outcome:
  assumes "map_of dev ''ip_address'' = Some ip" and "\<forall>c \<in> set sent. \<not> is_post c"
  shows "\<exists>res. set_new_id env sent dev new_id = Inr res
           \<and> filter (\<lambda>c. \<not> is_post c) (calls res) = sent
           \<and> filter is_post (calls res) = [PostId ip new_id]
           \<and> (returned res \<longleftrightarrow> post_id env ip new_id = Inr 200)"
proof -
  from assms(2) have "filter (\<lambda>c. \<not> is_post c) sent = sent" "filter is_post sent = []"
    by (simp_all add: filter_empty_conv)
  then show ?thesis
    using assms(1)
    by (cases "post_id env ip new_id")
       (auto simp: set_new_id_def split: pyexc.splits)
qed

lemma listing_line_device_info:
  "listing_line (device_info ip items now) =
     (if format_spec_ok (dict_get_default items ''id'' (PStr ''UNKNOWN''))
      then Inr (PStr ip, dict_get_default items ''id'' (PStr ''UNKNOWN''),
                dict_get_default items ''mac_address'' (PStr ''UNKNOWN''))
      else Inl (TypeError ''unsupported format string passed to __format__''))"
  by (simp add: listing_line_def device_info_def)

lemma listing_all_lines:
  "\<forall>dev \<in> set devs. listing_line dev = Inr (line dev) \<Longrightarrow> listing devs = Inr (map line devs)"
  by (induction devs) auto

text \<open>
  What provisioning does for a range that parses and a positive concurrency limit. It
  sends one status request to every host address of the range. None found: it returns
  false with the diagnostic \<open>NoDevicesFound\<close> and sends no ID change. Exactly one found:
  it sends exactly one ID change, to the address of that device and with the new ID,
  and returns true exactly when that request returns status 200. Two or more found: it
  lists the found devices and returns false with the diagnostic \<open>MultipleDevicesFound\<close>,
  unless a line of the listing raises; then the function raises.
\<close>

lemma provision_single_device_outcomes:
  assumes "parse_network env network_range = Inr (addr, p)"
    and "0 < concurrent_limit"
  shows "(probe_batch env (all_ips (ip_network addr p)) = [] \<longrightarrow>
            provision_single_device env network_range new_id concurrent_limit =
              Inr \<lparr>returned = False, diagnostics = [NoDevicesFound],
                   calls = map GetStatus (all_ips (ip_network addr p))\<rparr>)
         \<and> (\<forall>dev. probe_batch env (all_ips (ip_network addr p)) = [dev] \<longrightarrow>
               (\<exists>ip res. ip \<in> set (all_ips (ip_network addr p))
                  \<and> map_of dev ''ip_address'' = Some (PStr ip)
                  \<and> provision_single_device env network_range new_id concurrent_limit = Inr res
                  \<and> filter (\<lambda>c. \<not> is_post c) (calls res) =
                       map GetStatus (all_ips (ip_network addr p))
                  \<and> filter is_post (calls res) = [PostId (PStr ip) new_id]
                  \<and> (returned res \<longleftrightarrow> post_id env (PStr ip) new_id = Inr 200)))
         \<and> (2 \<le> length (probe_batch env (all_ips (ip_network addr p))) \<longrightarrow>
               provision_single_device env network_range new_id concurrent_limit =
                 (case listing (probe_batch env (all_ips (ip_network addr p))) of
                    Inl e \<Rightarrow> Inl e
                  | Inr listed \<Rightarrow>
                      Inr \<lparr>returned = False, diagnostics = [MultipleDevicesFound listed],
                           calls = map GetStatus (all_ips (ip_network addr p))\<rparr>))"
proof -
  let ?ips = "all_ips (ip_network addr p)"
  let ?found = "probe_batch env ?ips"
  let ?sent = "map GetStatus ?ips"
  let ?many = "case listing ?found of
                 Inl e \<Rightarrow> Inl e
               | Inr listed \<Rightarrow>
                   Inr \<lparr>returned = False, diagnostics = [MultipleDevicesFound listed],
                        calls = ?sent\<rparr>"
  from range_batches_cover [OF assms(2), of ?ips] obtain batches
    where batches: "range_batches concurrent_limit ?ips = Inr batches" "concat batches = ?ips"
    by blast
  have found: "concat (map (probe_batch env) batches) = ?found"
    by (simp add: probe_batch_concat batches(2))
  have gets: "\<forall>c \<in> set ?sent. \<not> is_post c"
    by auto
  have run: "provision_single_device env network_range new_id concurrent_limit =
      (case ?found of
         [] \<Rightarrow> Inr \<lparr>returned = False, diagnostics = [NoDevicesFound], calls = ?sent\<rparr>
       | [dev] \<Rightarrow> set_new_id env ?sent dev new_id
       | _ \<Rightarrow> ?many)"
    using assms(1) batches found by (simp add: provision_single_device_def Let_def)
  have none: "?found = [] \<longrightarrow>
      provision_single_device env network_range new_id concurrent_limit =
        Inr \<lparr>returned = False, diagnostics = [NoDevicesFound], calls = ?sent\<rparr>"
    using run by simp
  have one: "\<forall>dev. ?found = [dev] \<longrightarrow>
      (\<exists>ip res. ip \<in> set ?ips
         \<and> map_of dev ''ip_address'' = Some (PStr ip)
         \<and> provision_single_device env network_range new_id concurrent_limit = Inr res
         \<and> filter (\<lambda>c. \<not> is_post c) (calls res) = ?sent
         \<and> filter is_post (calls res) = [PostId (PStr ip) new_id]
         \<and> (returned res \<longleftrightarrow> post_id env (PStr ip) new_id = Inr 200))"
  proof (intro allI impI)
    fix dev
    assume one: "?found = [dev]"
    then have "dev \<in> set ?found" by simp
    from probe_batch_member [OF this] obtain ip items
      where ip: "ip \<in> set ?ips" "dev = device_info ip items (clock env ip)"
      by blast
    then have addr: "map_of dev ''ip_address'' = Some (PStr ip)"
      by (simp add: device_info_ip)
    from set_new_id_outcome [OF addr gets, of env new_id] obtain res
      where res: "set_new_id env ?sent dev new_id = Inr res"
        "filter (\<lambda>c. \<not> is_post c) (calls res) = ?sent"
        "filter is_post (calls res) = [PostId (PStr ip) new_id]"
        "returned res \<longleftrightarrow> post_id env (PStr ip) new_id = Inr 200"
      by blast
    from run one res(1) have
      "provision_single_device env network_range new_id concurrent_limit = Inr res"
      by simp
    with res ip(1) addr
    show "\<exists>ip res. ip \<in> set ?ips
         \<and> map_of dev ''ip_address'' = Some (PStr ip)
         \<and> provision_single_device env network_range new_id concurrent_limit = Inr res
         \<and> filter (\<lambda>c. \<not> is_post c) (calls res) = ?sent
         \<and> filter is_post (calls res) = [PostId (PStr ip) new_id]
         \<and> (returned res \<longleftrightarrow> post_id env (PStr ip) new_id = Inr 200)"
      by blast
  qed
  have many: "2 \<le> length ?found \<longrightarrow>
      provision_single_device env network_range new_id concurrent_limit = ?many"
  proof
    assume "2 \<le> length ?found"
    then obtain dev dev2 rest where "?found = dev # dev2 # rest"
      by (cases ?found; cases "tl ?found") auto
    with run show "provision_single_device env network_range new_id concurrent_limit = ?many"
      by simp
  qed
  from none one many show ?thesis
    by blast
qed

text \<open>One device in the range, which accepts the new ID: two probes, one ID change, success.\<close>

lemma provision_single_device_one_device:
  "provision_single_device ex_env ''192.168.1.4/30'' ''STAGE-01'' 50 =
     Inr \<lparr>returned = True, diagnostics = [],
          calls = [GetStatus ''192.168.1.5'', GetStatus ''192.168.1.6'',
                   PostId (PStr ''192.168.1.5'') ''STAGE-01'']\<rparr>"
proof -
  have parsed: "parse_network ex_env ''192.168.1.4/30'' = Inr (0xC0A80104, 30)"
    by (simp add: ex_env_def)
  have net: "ip_network 0xC0A80104 30 = \<lparr>network_address = 0xC0A80104, prefixlen = 30\<rparr>"
    by (simp add: ip_network_def ip_int_from_prefix_def ALL_ONES_def)
  have bc: "broadcast_address \<lparr>network_address = 0xC0A80104, prefixlen = 30\<rparr> = 0xC0A80107"
    by (simp add: broadcast_address_def hostmask_def netmask_def ip_int_from_prefix_def
          ALL_ONES_def)
  have hs: "hosts \<lparr>network_address = 0xC0A80104, prefixlen = 30\<rparr> = [0xC0A80105, 0xC0A80106]"
    by (simp add: hosts_def bc)
  have ips: "all_ips (ip_network 0xC0A80104 30) = [''192.168.1.5'', ''192.168.1.6'']"
    by (simp add: all_ips_def net hs str_ipv4_def str_octet_def digit_char_def
          drop_bit_eq_div take_bit_eq_mod)
  have found: "probe_batch ex_env [''192.168.1.5'', ''192.168.1.6''] =
      [device_info ''192.168.1.5''
         [(PStr ''mac_address'', PStr ''AA:00:00:00:00:05''), (PStr ''id'', PStr ''UNSET'')]
         ''2025-01-01T10:00:00'']"
    by (simp add: probe_batch_def scan_single_device_def ex_env_def)
  show ?thesis
    by (simp add: provision_single_device_def parsed ips range_batches_def
          slices.simps [of _ _ "[''192.168.1.5'', ''192.168.1.6'']"] found set_new_id_def
          device_info_def) (simp add: ex_env_def)
qed

text \<open>
  Claim C8. The claim holds of the function's intent and its docstring (\<^verbatim>\<open>True\<close> if
  successful, \<^verbatim>\<open>False\<close> otherwise), and the code misses it in the branch for several
  devices: two devices are found, both report \<^verbatim>\<open>"id": null\<close>, and the listing of the
  found devices formats the id with \<^verbatim>\<open>:<20\<close>. The function raises \<^verbatim>\<open>TypeError\<close> where the
  claim has it fail with the diagnostic that lists both devices.
\<close>

theorem provision_single_device_listing_raises:
  "parse_network ex_env_null_ids ''192.168.1.4/30'' = Inr (0xC0A80104, 30)
   \<and> length (probe_batch ex_env_null_ids (all_ips (ip_network 0xC0A80104 30))) = 2
   \<and> provision_single_device ex_env_null_ids ''192.168.1.4/30'' ''STAGE-01'' 50 =
       Inl (TypeError ''unsupported format string passed to __format__'')"
proof -
  have parsed: "parse_network ex_env_null_ids ''192.168.1.4/30'' = Inr (0xC0A80104, 30)"
    by (simp add: ex_env_null_ids_def)
  have net: "ip_network 0xC0A80104 30 = \<lparr>network_address = 0xC0A80104, prefixlen = 30\<rparr>"
    by (simp add: ip_network_def ip_int_from_prefix_def ALL_ONES_def)
  have bc: "broadcast_address \<lparr>network_address = 0xC0A80104, prefixlen = 30\<rparr> = 0xC0A80107"
    by (simp add: broadcast_address_def hostmask_def netmask_def ip_int_from_prefix_def
          ALL_ONES_def)
  have hs: "hosts \<lparr>network_address = 0xC0A80104, prefixlen = 30\<rparr> = [0xC0A80105, 0xC0A80106]"
    by (simp add: hosts_def bc)
  have ips: "all_ips (ip_network 0xC0A80104 30) = [''192.168.1.5'', ''192.168.1.6'']"
    by (simp add: all_ips_def net hs str_ipv4_def str_octet_def digit_char_def
          drop_bit_eq_div take_bit_eq_mod)
  have found: "probe_batch ex_env_null_ids [''192.168.1.5'', ''192.168.1.6''] =
      [device_info ''192.168.1.5''
         [(PStr ''mac_address'', PStr ''AA:00:00:00:00:05''), (PStr ''id'', PNone)]
         ''2025-01-01T10:00:00'',
       device_info ''192.168.1.6''
         [(PStr ''mac_address'', PStr ''AA:00:00:00:00:05''), (PStr ''id'', PNone)]
         ''2025-01-01T10:00:00'']"
    by (simp add: probe_batch_def scan_single_device_def ex_env_null_ids_def)
  have raises: "provision_single_device ex_env_null_ids ''192.168.1.4/30'' ''STAGE-01'' 50 =
       Inl (TypeError ''unsupported format string passed to __format__'')"
    by (simp add: provision_single_device_def parsed ips range_batches_def
          slices.simps [of _ _ "[''192.168.1.5'', ''192.168.1.6'']"] found
          listing_line_device_info dict_get_default_def)
  from parsed ips found raises show ?thesis
    by simp
qed

end
